theory Spec2Isabelle
  imports Main
begin

section \<open>Data model (src/lib/database.types.ts)\<close>

text \<open>
  \<^verbatim>\<open>Json\<close> is the union of strings, numbers, booleans, null, objects and arrays.

  The evaluator never computes with a number of an answer: it converts it to a string
  and compares it. A number is therefore represented by the text that \<^verbatim>\<open>String(n)\<close>
  yields for it (\<^verbatim>\<open>"3"\<close>, \<^verbatim>\<open>"0.5"\<close>, \<^verbatim>\<open>"1e+21"\<close>); that text identifies the number up
  to SameValueZero, so equality of the model is the equality \<^verbatim>\<open>includes\<close> uses.

  An object is the list of its own properties, in the type's words
  \<^verbatim>\<open>{ [key: string]: Json | undefined }\<close>; its prototype is \<^verbatim>\<open>Object.prototype\<close>, as for
  every object that \<^verbatim>\<open>JSON.parse\<close> builds.
\<close>

datatype json =
    JString string
  | JNumber string
  | JBool bool
  | JNull
  | JObject "(string \<times> json option) list"
  | JArray "json list"

datatype QuestionType =
    Short_text | Long_text | Dropdown | Checkboxes | Email | Phone | Number | Date
  | Rating | Opinion_scale | Yes_no | File_upload | Url | Location

datatype BranchOperator = OpEquals | OpNotEquals | OpContains | OpIn

text \<open>The condition value has type \<^verbatim>\<open>string | string[]\<close>.\<close>

datatype cond_value = VString string | VStrings "string list"

record Condition =
  questionId :: string
  operator :: BranchOperator
  cvalue :: cond_value

text \<open>
  \<^verbatim>\<open>nextQuestionId: string | null\<close>: \<open>None\<close> is \<^verbatim>\<open>null\<close>, the end of the form.
\<close>

record BranchRule =
  rule_id :: string
  condition :: Condition
  nextQuestionId :: "string option"

text \<open>
  Optional fields (\<^verbatim>\<open>field?: T\<close>) are options, \<open>None\<close> being \<^verbatim>\<open>undefined\<close>.
  \<^verbatim>\<open>defaultNextId?: string | null\<close> has three states: \<open>None\<close> is \<^verbatim>\<open>undefined\<close>
  (not configured), \<open>Some None\<close> is \<^verbatim>\<open>null\<close> (end the form) and
  \<open>Some (Some i)\<close> names a question.
\<close>

record QuestionConfig =
  qid :: string
  qtype :: QuestionType
  title :: string
  description :: "string option"
  required :: bool
  options :: "string list option"
  minValue :: "int option"
  maxValue :: "int option"
  allowedFileTypes :: "string list option"
  maxFileSize :: "int option"
  placeholder :: "string option"
  branches :: "BranchRule list option"
  defaultNextId :: "string option option"

text \<open>
  \<^verbatim>\<open>Record<string, Json>\<close>: the own properties of the answer record. What a property
  read yields for a key that is not an own property is the business of \<open>getProperty\<close>
  below.
\<close>

type_synonym answers = "string \<rightharpoonup> json"

text \<open>
  Two built-ins whose results are fixed by the host and not by the program:
  \<^verbatim>\<open>String.prototype.toLowerCase\<close> (Unicode case mapping) and the text that \<^verbatim>\<open>String\<close>
  yields for a built-in function of a given name (implementation-defined). The
  functions below take the host as their first argument, and the theorems hold for
  every host.
\<close>

record host =
  toLowerCase :: "string \<Rightarrow> string"
  functionText :: "string \<Rightarrow> string"

text \<open>
  Reading a property of \<^verbatim>\<open>undefined\<close>, and converting to a string an object that has
  no callable \<^verbatim>\<open>toString\<close>, raise a TypeError.
\<close>

datatype error = TypeError


section \<open>String conversion\<close>

text \<open>
  \<^verbatim>\<open>String(n)\<close> for an integer; used for the numeric bounds of a question, which are
  small integers (decimal notation is what \<^verbatim>\<open>String\<close> yields below \<open>10^21\<close>).
\<close>

definition digit_char :: "nat \<Rightarrow> char" where
  "digit_char n = ''0123456789'' ! n"

function digits :: "nat \<Rightarrow> string" where
  "digits n = (if n < 10 then [digit_char n] else digits (n div 10) @ [digit_char (n mod 10)])"
  by pat_completeness auto
termination
  by (relation "measure (\<lambda>n. n)") auto

declare digits.simps [simp del]

definition numberToString :: "int \<Rightarrow> string" where
  "numberToString n = (if n < 0 then CHR ''-'' # digits (nat (- n)) else digits (nat n))"

text \<open>\<^verbatim>\<open>Array.prototype.join\<close> with a separator.\<close>

fun join :: "string \<Rightarrow> string list \<Rightarrow> string" where
  "join sep [] = []"
| "join sep [s] = s"
| "join sep (s # t # ts) = s @ sep @ join sep (t # ts)"

text \<open>The results of a run of conversions, or the first error among them.\<close>

fun collect :: "(error + 'a) list \<Rightarrow> error + 'a list" where
  "collect [] = Inr []"
| "collect (r # rs) =
     (case r of
        Inl e \<Rightarrow> Inl e
      | Inr x \<Rightarrow> (case collect rs of Inl e \<Rightarrow> Inl e | Inr xs \<Rightarrow> Inr (x # xs)))"

text \<open>
  \<^verbatim>\<open>String(v)\<close> on a JSON value. An array is converted by joining its elements with
  commas, each element converted in turn, a \<^verbatim>\<open>null\<close> element contributing the empty
  string. An object is converted by the \<^verbatim>\<open>toString\<close> it has: the inherited one yields
  \<^verbatim>\<open>[object Object]\<close>; an own property \<^verbatim>\<open>toString\<close> shadows it, is never callable
  (a JSON value is not a function), and then neither is the conversion by
  \<^verbatim>\<open>valueOf\<close> possible: a TypeError is raised.
\<close>

fun String_js :: "json \<Rightarrow> error + string" where
  "String_js (JString s) = Inr s"
| "String_js (JNumber t) = Inr t"
| "String_js (JBool b) = Inr (if b then ''true'' else ''false'')"
| "String_js JNull = Inr ''null''"
| "String_js (JObject kvs) =
     (if ''toString'' \<in> set (map fst kvs) then Inl TypeError else Inr ''[object Object]'')"
| "String_js (JArray xs) =
     (case collect (map (\<lambda>x. if x = JNull then Inr [] else String_js x) xs) of
        Inl e \<Rightarrow> Inl e
      | Inr ss \<Rightarrow> Inr (join '','' ss))"

text \<open>\<^verbatim>\<open>String(conditionValue)\<close> on a value of type \<^verbatim>\<open>string | string[]\<close>.\<close>

fun String_cv :: "cond_value \<Rightarrow> string" where
  "String_cv (VString s) = s"
| "String_cv (VStrings ss) = join '','' ss"

text \<open>\<^verbatim>\<open>String.prototype.includes\<close>: the needle occurs as a contiguous substring.\<close>

fun startsWith :: "string \<Rightarrow> string \<Rightarrow> bool" where
  "startsWith s [] = True"
| "startsWith [] (c # cs) = False"
| "startsWith (d # ds) (c # cs) = (d = c \<and> startsWith ds cs)"

fun str_includes :: "string \<Rightarrow> string \<Rightarrow> bool" where
  "str_includes [] needle = (needle = [])"
| "str_includes (c # cs) needle = (startsWith (c # cs) needle \<or> str_includes cs needle)"

text \<open>
  \<^verbatim>\<open>answer.includes(conditionValue)\<close> on an array of JSON values compares each element
  with the condition value by SameValueZero, without any conversion: a string condition
  value is found exactly when the same string is an element. A condition value that is
  itself an array is an object, equal only to itself, and no element of an answer is
  that object.
\<close>

fun array_includes :: "json list \<Rightarrow> cond_value \<Rightarrow> bool" where
  "array_includes xs (VString s) = (JString s \<in> set xs)"
| "array_includes xs (VStrings ss) = False"

text \<open>
  \<^verbatim>\<open>Array.prototype.some\<close> with a callback that can raise: elements are tried in order,
  up to the first for which the callback returns true or raises.
\<close>

fun some_e :: "('a \<Rightarrow> error + bool) \<Rightarrow> 'a list \<Rightarrow> error + bool" where
  "some_e P [] = Inr False"
| "some_e P (x # xs) =
     (case P x of
        Inl e \<Rightarrow> Inl e
      | Inr b \<Rightarrow> if b then Inr True else some_e P xs)"


section \<open>Property reads on the answer record\<close>

text \<open>
  \<^verbatim>\<open>answers[key]\<close> is an ordinary property read: an own property wins, then the
  prototype chain is searched. The answer record is a plain object, so the chain is
  \<^verbatim>\<open>Object.prototype\<close>, whose properties are the built-in functions listed here (key
  and function name) and the accessor \<^verbatim>\<open>__proto__\<close>, which yields
  \<^verbatim>\<open>Object.prototype\<close> itself. Any other key reads as \<^verbatim>\<open>undefined\<close>.
\<close>

datatype jsvalue = Undefined | Json json | NativeFunction string | ObjectPrototype

definition objectPrototypeFunctions :: "(string \<times> string) list" where
  "objectPrototypeFunctions =
     [(''constructor'', ''Object''),
      (''hasOwnProperty'', ''hasOwnProperty''),
      (''isPrototypeOf'', ''isPrototypeOf''),
      (''propertyIsEnumerable'', ''propertyIsEnumerable''),
      (''toLocaleString'', ''toLocaleString''),
      (''toString'', ''toString''),
      (''valueOf'', ''valueOf''),
      (''__defineGetter__'', ''__defineGetter__''),
      (''__defineSetter__'', ''__defineSetter__''),
      (''__lookupGetter__'', ''__lookupGetter__''),
      (''__lookupSetter__'', ''__lookupSetter__'')]"


definition getProperty :: "answers \<Rightarrow> string \<Rightarrow> jsvalue" where
  "getProperty answers key =
     (case answers key of
        Some v \<Rightarrow> Json v
      | None \<Rightarrow>
          if key = ''__proto__'' then ObjectPrototype
          else (case map_of objectPrototypeFunctions key of
                  Some name \<Rightarrow> NativeFunction name
                | None \<Rightarrow> Undefined))"

text \<open>\<^verbatim>\<open>String(answer)\<close> on what a property read yields.\<close>

fun String_value :: "host \<Rightarrow> jsvalue \<Rightarrow> error + string" where
  "String_value h Undefined = Inr ''undefined''"
| "String_value h (Json v) = String_js v"
| "String_value h (NativeFunction name) = Inr (functionText h name)"
| "String_value h ObjectPrototype = Inr ''[object Object]''"

fun isArray :: "jsvalue \<Rightarrow> bool" where
  "isArray (Json (JArray xs)) = True"
| "isArray _ = False"

fun elements :: "jsvalue \<Rightarrow> json list" where
  "elements (Json (JArray xs)) = xs"
| "elements _ = []"

section \<open>Condition evaluator (src/lib/branching.ts, evaluateCondition)\<close>

text \<open>
  The switch on the operator, entered with the answer and its string form
  \<^verbatim>\<open>answerStr\<close>. The source's \<^verbatim>\<open>default\<close> branch is not reachable for an operator of
  type \<^verbatim>\<open>BranchOperator\<close>.
\<close>

fun evaluateOperator ::
  "host \<Rightarrow> BranchOperator \<Rightarrow> jsvalue \<Rightarrow> string \<Rightarrow> cond_value \<Rightarrow> error + bool" where
  "evaluateOperator h OpEquals answer answerStr conditionValue =
     (if isArray answer then Inr (array_includes (elements answer) conditionValue)
      else Inr (answerStr = String_cv conditionValue))"
| "evaluateOperator h OpNotEquals answer answerStr conditionValue =
     (if isArray answer then Inr (\<not> array_includes (elements answer) conditionValue)
      else Inr (answerStr \<noteq> String_cv conditionValue))"
| "evaluateOperator h OpContains answer answerStr conditionValue =
     (if isArray answer
      then some_e (\<lambda>a. case String_js a of
                          Inl e \<Rightarrow> Inl e
                        | Inr s \<Rightarrow> Inr (str_includes (toLowerCase h s)
                                          (toLowerCase h (String_cv conditionValue))))
             (elements answer)
      else Inr (str_includes (toLowerCase h answerStr)
                  (toLowerCase h (String_cv conditionValue))))"
| "evaluateOperator h OpIn answer answerStr conditionValue =
     (case conditionValue of
        VString s \<Rightarrow> Inr False
      | VStrings vs \<Rightarrow>
          (if isArray answer
           then some_e (\<lambda>a. case String_js a of Inl e \<Rightarrow> Inl e | Inr s \<Rightarrow> Inr (s \<in> set vs))
                  (elements answer)
           else Inr (answerStr \<in> set vs)))"

text \<open>
  The answer is read, tested for \<^verbatim>\<open>null\<close> and \<^verbatim>\<open>undefined\<close>, and converted to a
  string before the switch, whatever the operator.
\<close>

definition evaluateCondition :: "host \<Rightarrow> Condition \<Rightarrow> answers \<Rightarrow> error + bool" where
  "evaluateCondition h cond answers =
     (let answer = getProperty answers (questionId cond) in
      if answer = Json JNull \<or> answer = Undefined then Inr False
      else (case String_value h answer of
              Inl e \<Rightarrow> Inl e
            | Inr answerStr \<Rightarrow>
                evaluateOperator h (operator cond) answer answerStr (cvalue cond)))"

section \<open>Next-question resolver (getNextQuestionId)\<close>

text \<open>An array read \<^verbatim>\<open>xs[i]\<close> outside the array yields \<^verbatim>\<open>undefined\<close>, here \<open>None\<close>.\<close>

definition at :: "'a list \<Rightarrow> int \<Rightarrow> 'a option" where
  "at xs i = (if 0 \<le> i \<and> i < int (length xs) then Some (xs ! nat i) else None)"

text \<open>\<^verbatim>\<open>Array.prototype.findIndex\<close>: the first index whose element passes, or -1.\<close>

fun findIndexFrom :: "('a \<Rightarrow> bool) \<Rightarrow> 'a list \<Rightarrow> int \<Rightarrow> int" where
  "findIndexFrom P [] i = - 1"
| "findIndexFrom P (x # xs) i = (if P x then i else findIndexFrom P xs (i + 1))"

definition findIndex :: "('a \<Rightarrow> bool) \<Rightarrow> 'a list \<Rightarrow> int" where
  "findIndex P xs = findIndexFrom P xs 0"

text \<open>
  The loop over the branch rules: \<open>Inr (Some t)\<close> when a rule's condition holds and the
  function returns that rule's target \<open>t\<close> at once, \<open>Inr None\<close> when the loop runs to
  its end, and the error when the evaluation of a condition raises.
\<close>

fun scanBranches :: "host \<Rightarrow> BranchRule list \<Rightarrow> answers \<Rightarrow> error + string option option" where
  "scanBranches h [] answers = Inr None"
| "scanBranches h (branch # rest) answers =
     (case evaluateCondition h (condition branch) answers of
        Inl e \<Rightarrow> Inl e
      | Inr b \<Rightarrow> if b then Inr (Some (nextQuestionId branch)) else scanBranches h rest answers)"

text \<open>\<^verbatim>\<open>branches && branches.length > 0\<close> guards the loop; without it no rule is scanned.\<close>

definition rulesOf :: "QuestionConfig \<Rightarrow> BranchRule list" where
  "rulesOf q = (case branches q of None \<Rightarrow> [] | Some bs \<Rightarrow> bs)"

definition linearFallback :: "QuestionConfig \<Rightarrow> QuestionConfig list \<Rightarrow> error + string option" where
  "linearFallback currentQuestion allQuestions =
     (let currentIndex = findIndex (\<lambda>q. qid q = qid currentQuestion) allQuestions in
      if currentIndex \<ge> 0 \<and> currentIndex < int (length allQuestions) - 1
      then (case at allQuestions (currentIndex + 1) of
              None \<Rightarrow> Inl TypeError
            | Some q \<Rightarrow> Inr (Some (qid q)))
      else Inr None)"

definition getNextQuestionId ::
  "host \<Rightarrow> QuestionConfig \<Rightarrow> QuestionConfig list \<Rightarrow> answers \<Rightarrow> error + string option" where
  "getNextQuestionId h currentQuestion allQuestions answers =
     (case scanBranches h (rulesOf currentQuestion) answers of
        Inl e \<Rightarrow> Inl e
      | Inr (Some target) \<Rightarrow> Inr target
      | Inr None \<Rightarrow>
          (case defaultNextId currentQuestion of
             Some d \<Rightarrow> Inr d
           | None \<Rightarrow> linearFallback currentQuestion allQuestions))"

section \<open>Path projector (getQuestionPath)\<close>

text \<open>
  The while loop, with its local variables as arguments. A cursor that is \<^verbatim>\<open>null\<close>
  or the empty string is falsy and ends the loop.
\<close>

function pathLoop ::
  "host \<Rightarrow> QuestionConfig list \<Rightarrow> answers \<Rightarrow> nat \<Rightarrow> QuestionConfig list \<Rightarrow> string set
   \<Rightarrow> string option \<Rightarrow> nat \<Rightarrow> error + QuestionConfig list" where
  "pathLoop h questions answers maxIterations path visited currentId iterations =
     (case currentId of
        None \<Rightarrow> Inr path
      | Some cur \<Rightarrow>
          if cur = [] \<or> \<not> iterations < maxIterations then Inr path
          else if cur \<in> visited then Inr path
          else (case find (\<lambda>q. qid q = cur) questions of
                  None \<Rightarrow> Inr path
                | Some question \<Rightarrow>
                    (case getNextQuestionId h question questions answers of
                       Inl e \<Rightarrow> Inl e
                     | Inr next \<Rightarrow>
                         pathLoop h questions answers maxIterations (path @ [question])
                           (insert cur visited) next (iterations + 1))))"
  by pat_completeness auto
termination
  by (relation "measure (\<lambda>(h, qs, ans, maxIterations, p, v, c, iterations). maxIterations - iterations)")
     auto

declare pathLoop.simps [simp del]

text \<open>\<^verbatim>\<open>startFromId || questions[0].id\<close>: an absent or empty start id is falsy.\<close>

definition startCursor :: "QuestionConfig list \<Rightarrow> string option \<Rightarrow> error + string" where
  "startCursor questions startFromId =
     (case startFromId of
        Some s \<Rightarrow> if s \<noteq> [] then Inr s
                  else (case at questions 0 of None \<Rightarrow> Inl TypeError | Some q \<Rightarrow> Inr (qid q))
      | None \<Rightarrow> (case at questions 0 of None \<Rightarrow> Inl TypeError | Some q \<Rightarrow> Inr (qid q)))"

definition getQuestionPath ::
  "host \<Rightarrow> QuestionConfig list \<Rightarrow> answers \<Rightarrow> string option \<Rightarrow> error + QuestionConfig list" where
  "getQuestionPath h questions answers startFromId =
     (if length questions = 0 then Inr []
      else (case startCursor questions startFromId of
              Inl e \<Rightarrow> Inl e
            | Inr cur \<Rightarrow> pathLoop h questions answers (length questions * 2) [] {} (Some cur) 0))"

section \<open>Eligibility and value queries\<close>

definition hasBranching :: "QuestionConfig \<Rightarrow> bool" where
  "hasBranching question =
     ((case branches question of None \<Rightarrow> False | Some bs \<Rightarrow> length bs > 0)
      \<or> defaultNextId question \<noteq> None)"

definition getBranchableQuestions :: "QuestionConfig \<Rightarrow> QuestionConfig list \<Rightarrow> QuestionConfig list" where
  "getBranchableQuestions currentQuestion allQuestions =
     (let currentIndex = findIndex (\<lambda>q. qid q = qid currentQuestion) allQuestions in
      if currentIndex < 0 then [] else drop (nat (currentIndex + 1)) allQuestions)"

definition branchableTypes :: "QuestionType list" where
  "branchableTypes = [Dropdown, Checkboxes, Yes_no, Rating, Opinion_scale]"

definition getConditionableQuestions :: "QuestionConfig \<Rightarrow> QuestionConfig list \<Rightarrow> QuestionConfig list" where
  "getConditionableQuestions currentQuestion allQuestions =
     (let currentIndex = findIndex (\<lambda>q. qid q = qid currentQuestion) allQuestions in
      if currentIndex \<le> 0 then []
      else filter (\<lambda>q. qtype q \<in> set branchableTypes) (take (nat currentIndex) allQuestions))"

text \<open>
  \<^verbatim>\<open>x || d\<close> on an optional number: \<^verbatim>\<open>undefined\<close> and \<^verbatim>\<open>0\<close> are both falsy and
  give \<open>d\<close>.
\<close>

definition orDefault :: "int option \<Rightarrow> int \<Rightarrow> int" where
  "orDefault x d = (case x of None \<Rightarrow> d | Some n \<Rightarrow> if n = 0 then d else n)"

text \<open>
  \<^verbatim>\<open>Array.from({ length: hi - lo + 1 }, (_, i) => String(lo + i))\<close>; a negative length
  counts as zero. The bounds are taken as integers on which the arithmetic of the source
  is exact (magnitudes below \<open>2^53\<close>, fewer than \<open>2^32\<close> values).
\<close>

definition rangeStrings :: "int \<Rightarrow> int \<Rightarrow> string list" where
  "rangeStrings lo hi = map (\<lambda>i. numberToString (lo + int i)) [0 ..< nat (hi - lo + 1)]"

definition getQuestionValues :: "QuestionConfig \<Rightarrow> string list" where
  "getQuestionValues question =
     (case qtype question of
        Dropdown \<Rightarrow> (case options question of None \<Rightarrow> [] | Some os \<Rightarrow> os)
      | Checkboxes \<Rightarrow> (case options question of None \<Rightarrow> [] | Some os \<Rightarrow> os)
      | Yes_no \<Rightarrow> [''Yes'', ''No'']
      | Rating \<Rightarrow>
          (let minRating = orDefault (minValue question) 1;
               maxRating = orDefault (maxValue question) 5
           in rangeStrings minRating maxRating)
      | Opinion_scale \<Rightarrow>
          (let minScale = orDefault (minValue question) 1;
               maxScale = orDefault (maxValue question) 10
           in rangeStrings minScale maxScale)
      | _ \<Rightarrow> [])"

section \<open>Rule construction (createBranchRule)\<close>


section \<open>Structural order in the specification's words\<close>

text \<open>
  The id of the question immediately following the one with id \<open>i\<close> in the list, END
  (\<open>None\<close>) when that question is last or the list has none.
\<close>

fun following :: "string \<Rightarrow> QuestionConfig list \<Rightarrow> string option" where
  "following i [] = None"
| "following i [q] = None"
| "following i (q # n # rest) = (if qid q = i then Some (qid n) else following i (n # rest))"

section \<open>Example hosts and forms\<close>

text \<open>
  A host whose \<open>toLowerCase\<close> maps the letters A to Z (it agrees with every host on
  ASCII text) and whose built-in functions print as in V8.
\<close>

definition lower_char :: "char \<Rightarrow> char" where
  "lower_char c =
     (let n = (of_char c :: nat) in if 65 \<le> n \<and> n \<le> 90 then char_of (n + 32) else c)"

definition asciiHost :: host where
  "asciiHost = \<lparr>toLowerCase = map lower_char,
                functionText = (\<lambda>name. ''function '' @ name @ ''() { [native code] }'')\<rparr>"

text \<open>A question with the given id, type, rules and default-next, all else unset.\<close>

definition mkQuestion ::
  "string \<Rightarrow> QuestionType \<Rightarrow> BranchRule list option \<Rightarrow> string option option \<Rightarrow> QuestionConfig" where
  "mkQuestion i t bs d =
     \<lparr>qid = i, qtype = t, title = [], description = None, required = False,
      options = None, minValue = None, maxValue = None, allowedFileTypes = None,
      maxFileSize = None, placeholder = None, branches = bs, defaultNextId = d\<rparr>"

text \<open>A 2-cycle: A's default-next is B and B's default-next is A.\<close>

definition cycleForm :: "QuestionConfig list" where
  "cycleForm = [mkQuestion ''A'' Short_text None (Some (Some ''B'')),
                mkQuestion ''B'' Short_text None (Some (Some ''A''))]"

text \<open>
  Three questions in a row; the first jumps to the third when its own answer is Red.
\<close>

definition redRule :: BranchRule where
  "redRule = \<lparr>rule_id = ''r1'',
              condition = \<lparr>questionId = ''Q1'', operator = OpEquals, cvalue = VString ''Red''\<rparr>,
              nextQuestionId = Some ''Q3''\<rparr>"

definition colourForm :: "QuestionConfig list" where
  "colourForm = [(mkQuestion ''Q1'' Dropdown (Some [redRule]) None)\<lparr>options := Some [''Red'', ''Blue'']\<rparr>,
                 mkQuestion ''Q2'' Short_text None None,
                 mkQuestion ''Q3'' Short_text None None]"

text \<open>The JSON object \<^verbatim>\<open>{"toString": "x"}\<close>, whose own property shadows \<^verbatim>\<open>toString\<close>.\<close>

definition shadowing :: json where
  "shadowing = JObject [(''toString'', Some (JString ''x''))]"

section \<open>Conversions that raise, and those that do not\<close>

lemmas ex_defs = asciiHost_def mkQuestion_def cycleForm_def redRule_def colourForm_def shadowing_def

lemma collect_Inr_all: "collect rs = Inr ys \<Longrightarrow> r \<in> set rs \<Longrightarrow> \<exists>y. r = Inr y"
  by (induction rs arbitrary: ys) (auto split: sum.splits)

lemma String_js_element:
  assumes "String_js (JArray xs) = Inr s" and "x \<in> set xs"
  shows "\<exists>t. String_js x = Inr t"
proof (cases "x = JNull")
  case True
  then show ?thesis by simp
next
  case False
  obtain ss where "collect (map (\<lambda>x. if x = JNull then Inr [] else String_js x) xs) = Inr ss"
    using assms(1) by (auto split: sum.splits)
  then have "\<exists>y. (if x = JNull then Inr [] else String_js x) = Inr y"
    using assms(2) collect_Inr_all by fastforce
  then show ?thesis
    using False by simp
qed

lemma some_e_total:
  "(\<forall>x \<in> set xs. P x = Inr (Q x)) \<Longrightarrow> some_e P xs = Inr (\<exists>x \<in> set xs. Q x)"
  by (induction xs) auto

lemma some_e_in:
  assumes "String_js (JArray xs) = Inr s"
  shows "some_e (\<lambda>a. case String_js a of Inl e \<Rightarrow> Inl e | Inr u \<Rightarrow> Inr (R u)) xs
         = Inr (\<exists>x \<in> set xs. \<exists>u. String_js x = Inr u \<and> R u)"
proof -
  have "\<forall>x \<in> set xs. (case String_js x of Inl e \<Rightarrow> Inl e | Inr u \<Rightarrow> Inr (R u))
          = Inr (\<exists>u. String_js x = Inr u \<and> R u)"
    using String_js_element [OF assms] by fastforce
  then show ?thesis
    by (rule some_e_total)
qed

lemma getProperty_own: "answers k = Some v \<Longrightarrow> getProperty answers k = Json v"
  by (simp add: getProperty_def)


lemma evaluateCondition_own:
  "answers (questionId cond) = Some a \<Longrightarrow> a \<noteq> JNull \<Longrightarrow>
   evaluateCondition h cond answers =
     (case String_js a of
        Inl e \<Rightarrow> Inl e
      | Inr t \<Rightarrow> evaluateOperator h (operator cond) (Json a) t (cvalue cond))"
  by (simp add: evaluateCondition_def getProperty_own)

lemma evaluateOperator_returns:
  assumes "String_value h answer = Inr t"
  shows "\<exists>b. evaluateOperator h op answer t cv = Inr b"
proof (cases "isArray answer")
  case False
  then show ?thesis
    by (cases op; cases cv) auto
next
  case True
  then obtain xs where xs: "answer = Json (JArray xs)"
    by (cases answer rule: isArray.cases) simp_all
  then have str: "String_js (JArray xs) = Inr t"
    using assms by simp
  show ?thesis
    using xs some_e_in [OF str] by (cases op; cases cv) auto
qed

lemma evaluateCondition_returns:
  assumes "\<forall>v \<in> ran answers. \<exists>t. String_js v = Inr t"
  shows "\<exists>b. evaluateCondition h cond answers = Inr b"
proof (cases "getProperty answers (questionId cond) = Json JNull
            \<or> getProperty answers (questionId cond) = Undefined")
  case True
  then show ?thesis
    by (auto simp: evaluateCondition_def)
next
  case False
  have "\<exists>t. String_value h (getProperty answers (questionId cond)) = Inr t"
  proof (cases "answers (questionId cond)")
    case None
    then show ?thesis
      by (simp add: getProperty_def split: option.splits)
  next
    case (Some v)
    then have "v \<in> ran answers"
      by (auto simp: ran_def)
    then show ?thesis
      using assms Some by (simp add: getProperty_own)
  qed
  then obtain t where t: "String_value h (getProperty answers (questionId cond)) = Inr t"
    by blast
  obtain b where "evaluateOperator h (operator cond) (getProperty answers (questionId cond)) t
      (cvalue cond) = Inr b"
    using evaluateOperator_returns [OF t] by blast
  then show ?thesis
    using False t by (simp add: evaluateCondition_def Let_def)
qed

section \<open>Properties of the condition evaluator\<close>







text \<open>
  Claim C5, as stated, asks that membership in a list-valued answer be decided on
  string-converted values, so that the number 1 in the list matches the condition value
  \<^verbatim>\<open>"1"\<close>. \<^verbatim>\<open>answer.includes\<close> converts nothing: the number 1 and the condition value
  have the same string form, and the list \<^verbatim>\<open>[1]\<close> still does not include \<^verbatim>\<open>"1"\<close>.
\<close>

theorem equals_list_string_converted_counterexample:
  "String_js (JNumber ''1'') = Inr (String_cv (VString ''1''))
   \<and> evaluateCondition asciiHost \<lparr>questionId = ''q'', operator = OpEquals, cvalue = VString ''1''\<rparr>
        [''q'' \<mapsto> JArray [JNumber ''1'']] = Inr False"
  by (simp add: evaluateCondition_def getProperty_def)

text \<open>
  Claim C5, amended. With operator \<open>equals\<close> and a present answer: when
  \<^verbatim>\<open>String(answer)\<close> raises (the answer is, or holds in a list, an object with an own
  property \<^verbatim>\<open>toString\<close>) the evaluation raises the TypeError; otherwise, for a
  list-valued answer the result is true iff the condition value is a string and that
  very string is an element of the list (no conversion of the elements), and for any
  other answer it is true iff the string-converted answer equals the string-converted
  condition value.
\<close>

theorem equals_semantics:
  "answers (questionId cond) = Some answer \<Longrightarrow> answer \<noteq> JNull \<Longrightarrow> operator cond = OpEquals \<Longrightarrow>
   evaluateCondition h cond answers =
     (case String_js answer of
        Inl e \<Rightarrow> Inl e
      | Inr t \<Rightarrow>
          Inr (case answer of
                 JArray xs \<Rightarrow> (\<exists>s. cvalue cond = VString s \<and> JString s \<in> set xs)
               | _ \<Rightarrow> t = String_cv (cvalue cond)))"
  by (cases answer; cases "cvalue cond") (auto simp: evaluateCondition_own split: sum.splits)

theorem equals_semantics_witness:
  "[''q'' \<mapsto> JArray [JNumber ''1'', JString ''1'']] ''q'' = Some (JArray [JNumber ''1'', JString ''1''])
   \<and> JArray [JNumber ''1'', JString ''1''] \<noteq> JNull
   \<and> operator \<lparr>questionId = ''q'', operator = OpEquals, cvalue = VString ''1''\<rparr> = OpEquals
   \<and> evaluateCondition asciiHost \<lparr>questionId = ''q'', operator = OpEquals, cvalue = VString ''1''\<rparr>
        [''q'' \<mapsto> JArray [JNumber ''1'', JString ''1'']] = Inr True
   \<and> evaluateCondition asciiHost \<lparr>questionId = ''q'', operator = OpEquals, cvalue = VString ''1''\<rparr>
        [''q'' \<mapsto> JNumber ''1''] = Inr True
   \<and> evaluateCondition asciiHost \<lparr>questionId = ''q'', operator = OpEquals, cvalue = VString ''1''\<rparr>
        [''q'' \<mapsto> shadowing] = Inl TypeError"
  using equals_semantics
    [of "[''q'' \<mapsto> JArray [JNumber ''1'', JString ''1'']]"
        "\<lparr>questionId = ''q'', operator = OpEquals, cvalue = VString ''1''\<rparr>"
        "JArray [JNumber ''1'', JString ''1'']" asciiHost]
    equals_semantics
    [of "[''q'' \<mapsto> JNumber ''1'']"
        "\<lparr>questionId = ''q'', operator = OpEquals, cvalue = VString ''1''\<rparr>"
        "JNumber ''1''" asciiHost]
    equals_semantics
    [of "[''q'' \<mapsto> shadowing]"
        "\<lparr>questionId = ''q'', operator = OpEquals, cvalue = VString ''1''\<rparr>"
        shadowing asciiHost]
  by (simp add: shadowing_def)

text \<open>
  Claim C6, as stated, has operator \<open>in\<close> return false for every answer when the
  condition value is not a list. The answer is converted to a string before the
  condition value is looked at, so for an answer that is an object with an own property
  \<^verbatim>\<open>toString\<close> the evaluation raises a TypeError instead.
\<close>

theorem in_raises_counterexample:
  "evaluateCondition asciiHost \<lparr>questionId = ''q'', operator = OpIn, cvalue = VString ''x''\<rparr>
        [''q'' \<mapsto> shadowing] = Inl TypeError"
  by (simp add: evaluateCondition_def getProperty_def shadowing_def)

lemma in_own:
  assumes "operator cond = OpIn" and "answers (questionId cond) = Some answer" and "answer \<noteq> JNull"
  shows "evaluateCondition h cond answers =
     (case String_js answer of
        Inl e \<Rightarrow> Inl e
      | Inr t \<Rightarrow>
          Inr (case cvalue cond of
                 VString s \<Rightarrow> False
               | VStrings vs \<Rightarrow>
                   (case answer of
                      JArray xs \<Rightarrow> (\<exists>x \<in> set xs. \<exists>u. String_js x = Inr u \<and> u \<in> set vs)
                    | _ \<Rightarrow> t \<in> set vs)))"
proof (cases "String_js answer")
  case (Inl e)
  then show ?thesis
    using assms by (simp add: evaluateCondition_own)
next
  case (Inr t)
  show ?thesis
  proof (cases answer)
    case (JArray xs)
    then have "String_js (JArray xs) = Inr t"
      using Inr by simp
    from some_e_in [OF this, of "\<lambda>u. u \<in> set vs" for vs] show ?thesis
      using assms Inr JArray by (cases "cvalue cond") (simp_all add: evaluateCondition_own)
  qed (use assms Inr in \<open>cases "cvalue cond"; simp add: evaluateCondition_own\<close>)+
qed

lemma in_not_list:
  assumes "operator cond = OpIn" and "cvalue cond = VString s"
    and "\<forall>a. answers (questionId cond) = Some a \<longrightarrow> (\<exists>t. String_js a = Inr t)"
  shows "evaluateCondition h cond answers = Inr False"
proof (cases "answers (questionId cond)")
  case None
  then show ?thesis
    using assms(1,2) by (simp add: evaluateCondition_def getProperty_def Let_def split: option.splits)
next
  case (Some a)
  then obtain t where "String_js a = Inr t"
    using assms(3) by blast
  then show ?thesis
    using assms(1,2) Some by (cases "a = JNull") (simp_all add: evaluateCondition_def getProperty_own in_own)
qed

text \<open>
  Claim C6, amended. With operator \<open>in\<close>: when the condition value is not a list,
  the result is false, provided \<^verbatim>\<open>String(answer)\<close> does not raise. For a present
  answer, when \<^verbatim>\<open>String(answer)\<close> raises the evaluation raises the TypeError;
  otherwise, for a list condition value the result is true iff some element of a
  list-valued answer, stringified, occurs in the condition list, or, for any other
  answer, iff the stringified answer occurs in it.
\<close>

theorem in_semantics:
  "operator cond = OpIn \<Longrightarrow>
   (\<forall>s. cvalue cond = VString s
        \<and> (\<forall>a. answers (questionId cond) = Some a \<longrightarrow> (\<exists>t. String_js a = Inr t))
      \<longrightarrow> evaluateCondition h cond answers = Inr False)
   \<and> (\<forall>answer. answers (questionId cond) = Some answer \<and> answer \<noteq> JNull \<longrightarrow>
        evaluateCondition h cond answers =
          (case String_js answer of
             Inl e \<Rightarrow> Inl e
           | Inr t \<Rightarrow>
               Inr (case cvalue cond of
                      VString s \<Rightarrow> False
                    | VStrings vs \<Rightarrow>
                        (case answer of
                           JArray xs \<Rightarrow> (\<exists>x \<in> set xs. \<exists>u. String_js x = Inr u \<and> u \<in> set vs)
                         | _ \<Rightarrow> t \<in> set vs))))"
  using in_not_list [of cond _ answers h] in_own [of cond answers _ h] by blast

theorem in_semantics_witness:
  "operator \<lparr>questionId = ''q'', operator = OpIn, cvalue = VString ''x''\<rparr> = OpIn
   \<and> [''q'' \<mapsto> JString ''x''] ''q'' = Some (JString ''x'')
   \<and> String_js (JString ''x'') = Inr ''x''
   \<and> evaluateCondition asciiHost \<lparr>questionId = ''q'', operator = OpIn, cvalue = VString ''x''\<rparr>
        [''q'' \<mapsto> JString ''x''] = Inr False
   \<and> evaluateCondition asciiHost \<lparr>questionId = ''q'', operator = OpIn, cvalue = VStrings [''x'', ''2'']\<rparr>
        [''q'' \<mapsto> JArray [JString ''y'', JNumber ''2'']] = Inr True
   \<and> evaluateCondition asciiHost \<lparr>questionId = ''q'', operator = OpIn, cvalue = VStrings [''x'', ''2'']\<rparr>
        [''q'' \<mapsto> JBool True] = Inr False"
  using in_semantics
    [of "\<lparr>questionId = ''q'', operator = OpIn, cvalue = VString ''x''\<rparr>" "[''q'' \<mapsto> JString ''x'']" asciiHost]
    in_semantics
    [of "\<lparr>questionId = ''q'', operator = OpIn, cvalue = VStrings [''x'', ''2'']\<rparr>"
        "[''q'' \<mapsto> JArray [JString ''y'', JNumber ''2'']]" asciiHost]
    in_semantics
    [of "\<lparr>questionId = ''q'', operator = OpIn, cvalue = VStrings [''x'', ''2'']\<rparr>" "[''q'' \<mapsto> JBool True]" asciiHost]
  by simp

section \<open>Properties of the resolver\<close>

lemma findIndexFrom_none: "(\<forall>x \<in> set xs. \<not> P x) \<Longrightarrow> findIndexFrom P xs i = - 1"
  by (induction xs arbitrary: i) auto

lemma findIndexFrom_first:
  "(\<forall>y \<in> set pre. \<not> P y) \<Longrightarrow> P x \<Longrightarrow> findIndexFrom P (pre @ x # post) i = i + int (length pre)"
  by (induction pre arbitrary: i) auto

lemma following_none: "(\<forall>x \<in> set xs. qid x \<noteq> k) \<Longrightarrow> following k xs = None"
  by (induction k xs rule: following.induct) auto

lemma following_first:
  "(\<forall>y \<in> set pre. qid y \<noteq> k) \<Longrightarrow> qid x = k \<Longrightarrow>
   following k (pre @ x # post) = (case post of [] \<Rightarrow> None | n # _ \<Rightarrow> Some (qid n))"
proof (induction pre)
  case Nil
  then show ?case by (cases post) auto
next
  case (Cons a pre)
  then show ?case by (cases pre) auto
qed

lemma following_position:
  "distinct (map qid (pre @ q # post)) \<Longrightarrow>
   following (qid q) (pre @ q # post) = (case post of [] \<Rightarrow> None | n # _ \<Rightarrow> Some (qid n))"
proof (rule following_first)
  assume d: "distinct (map qid (pre @ q # post))"
  then have "qid q \<notin> set (map qid pre)"
    by simp
  then show "\<forall>y \<in> set pre. qid y \<noteq> qid q"
    by (metis image_eqI set_map)
qed simp

lemma linearFallback_absent:
  "(\<forall>x \<in> set qs. qid x \<noteq> qid q) \<Longrightarrow> linearFallback q qs = Inr None"
  by (simp add: linearFallback_def findIndex_def findIndexFrom_none)

lemma linearFallback_following: "linearFallback q qs = Inr (following (qid q) qs)"
proof (cases "\<exists>x \<in> set qs. qid x = qid q")
  case False
  then show ?thesis
    by (simp add: linearFallback_absent following_none)
next
  case True
  then obtain pre x post where
    qs: "qs = pre @ x # post" and x: "qid x = qid q" and pre: "\<forall>y \<in> set pre. qid y \<noteq> qid q"
    using split_list_first_prop [of qs "\<lambda>x. qid x = qid q"] by blast
  have idx: "findIndex (\<lambda>y. qid y = qid q) qs = int (length pre)"
    unfolding findIndex_def qs using findIndexFrom_first [of pre "\<lambda>y. qid y = qid q" x post 0] pre x
    by simp
  show ?thesis
  proof (cases post)
    case Nil
    then show ?thesis
      using idx qs following_first [OF pre x, of post]
      by (simp add: linearFallback_def)
  next
    case (Cons n rest)
    have "at qs (int (length pre) + 1) = Some n"
      by (simp add: at_def qs Cons nat_add_distrib nth_append)
    then show ?thesis
      using idx qs Cons following_first [OF pre x, of post]
      by (simp add: linearFallback_def)
  qed
qed

lemma scanBranches_all_false:
  "(\<forall>r \<in> set rs. evaluateCondition h (condition r) answers = Inr False) \<Longrightarrow>
   scanBranches h rs answers = Inr None"
  by (induction rs) auto

lemma scanBranches_first_true:
  "(\<forall>r \<in> set pre. evaluateCondition h (condition r) answers = Inr False) \<Longrightarrow>
   evaluateCondition h (condition b) answers = Inr True \<Longrightarrow>
   scanBranches h (pre @ b # post) answers = Inr (Some (nextQuestionId b))"
  by (induction pre) auto

lemma scanBranches_first_raise:
  "(\<forall>r \<in> set pre. evaluateCondition h (condition r) answers = Inr False) \<Longrightarrow>
   evaluateCondition h (condition b) answers = Inl e \<Longrightarrow>
   scanBranches h (pre @ b # post) answers = Inl e"
  by (induction pre) auto

lemma scanBranches_returns:
  "(\<forall>r \<in> set rs. \<exists>b. evaluateCondition h (condition r) answers = Inr b) \<Longrightarrow>
   \<exists>t. scanBranches h rs answers = Inr t"
  by (induction rs) auto

lemma getNextQuestionId_returns:
  assumes "\<forall>v \<in> ran answers. \<exists>t. String_js v = Inr t"
  shows "\<exists>next. getNextQuestionId h q qs answers = Inr next"
proof -
  obtain t where "scanBranches h (rulesOf q) answers = Inr t"
    using scanBranches_returns evaluateCondition_returns [OF assms] by blast
  then show ?thesis
    by (simp add: getNextQuestionId_def linearFallback_following split: option.splits)
qed

text \<open>
  Claim C2, as stated, has \<open>getNextQuestionId\<close> return a target for every answer map.
  The first question of the form below has one rule and no default-next; with an answer
  that is an object with an own property \<^verbatim>\<open>toString\<close> the rule's condition does not
  evaluate to true, and the resolver, instead of falling back to the next question,
  raises the TypeError of \<^verbatim>\<open>String(answer)\<close>.
\<close>

theorem getNextQuestionId_raises_counterexample:
  "evaluateCondition asciiHost (condition redRule) [''Q1'' \<mapsto> shadowing] \<noteq> Inr True
   \<and> rulesOf (colourForm ! 0) = [redRule]
   \<and> defaultNextId (colourForm ! 0) = None
   \<and> getNextQuestionId asciiHost (colourForm ! 0) colourForm [''Q1'' \<mapsto> shadowing] = Inl TypeError"
  by (simp add: ex_defs getNextQuestionId_def rulesOf_def evaluateCondition_def getProperty_def)

text \<open>
  Claim C2, amended. \<open>getNextQuestionId\<close> applies the precedence in the stated order,
  the evaluation of a rule's condition being able to raise: (1) when the rules before
  some rule evaluate to false and that rule's condition evaluates to true, the result is
  that rule's target; (2) when every rule evaluates to false and default-next is
  configured (END or an id), the result is that value; (3) when every rule evaluates to
  false and default-next is not configured, the result is the id of the question
  following the current one in the list, END when the current one is last; in
  particular, for a question of a list with unique ids that has no rules and no
  configured default-next, it is the id of its successor, or END for the last question;
  and when the rules before some rule evaluate to false and the evaluation of that rule
  raises, the resolver raises the same error.
\<close>

theorem getNextQuestionId_precedence:
  "(\<forall>pre b post. rulesOf q = pre @ b # post
        \<and> (\<forall>r \<in> set pre. evaluateCondition h (condition r) answers = Inr False)
        \<and> evaluateCondition h (condition b) answers = Inr True
      \<longrightarrow> getNextQuestionId h q qs answers = Inr (nextQuestionId b))
   \<and> (\<forall>d. (\<forall>r \<in> set (rulesOf q). evaluateCondition h (condition r) answers = Inr False)
        \<and> defaultNextId q = Some d
      \<longrightarrow> getNextQuestionId h q qs answers = Inr d)
   \<and> ((\<forall>r \<in> set (rulesOf q). evaluateCondition h (condition r) answers = Inr False)
        \<and> defaultNextId q = None
      \<longrightarrow> getNextQuestionId h q qs answers = Inr (following (qid q) qs))
   \<and> (\<forall>before after. qs = before @ q # after \<and> distinct (map qid qs)
        \<and> rulesOf q = [] \<and> defaultNextId q = None
      \<longrightarrow> getNextQuestionId h q qs answers
            = Inr (case after of [] \<Rightarrow> None | n # _ \<Rightarrow> Some (qid n)))
   \<and> (\<forall>pre b post e. rulesOf q = pre @ b # post
        \<and> (\<forall>r \<in> set pre. evaluateCondition h (condition r) answers = Inr False)
        \<and> evaluateCondition h (condition b) answers = Inl e
      \<longrightarrow> getNextQuestionId h q qs answers = Inl e)"
proof -
  have first: "\<forall>pre b post. rulesOf q = pre @ b # post
        \<and> (\<forall>r \<in> set pre. evaluateCondition h (condition r) answers = Inr False)
        \<and> evaluateCondition h (condition b) answers = Inr True
      \<longrightarrow> getNextQuestionId h q qs answers = Inr (nextQuestionId b)"
    by (simp add: getNextQuestionId_def scanBranches_first_true)
  have dflt: "\<forall>d. (\<forall>r \<in> set (rulesOf q). evaluateCondition h (condition r) answers = Inr False)
        \<and> defaultNextId q = Some d
      \<longrightarrow> getNextQuestionId h q qs answers = Inr d"
    by (simp add: getNextQuestionId_def scanBranches_all_false)
  have order: "(\<forall>r \<in> set (rulesOf q). evaluateCondition h (condition r) answers = Inr False)
        \<and> defaultNextId q = None
      \<longrightarrow> getNextQuestionId h q qs answers = Inr (following (qid q) qs)"
    by (simp add: getNextQuestionId_def scanBranches_all_false linearFallback_following)
  have particular: "\<forall>before after. qs = before @ q # after \<and> distinct (map qid qs)
        \<and> rulesOf q = [] \<and> defaultNextId q = None
      \<longrightarrow> getNextQuestionId h q qs answers
            = Inr (case after of [] \<Rightarrow> None | n # _ \<Rightarrow> Some (qid n))"
    by (auto simp: getNextQuestionId_def linearFallback_following following_position)
  have raise: "\<forall>pre b post e. rulesOf q = pre @ b # post
        \<and> (\<forall>r \<in> set pre. evaluateCondition h (condition r) answers = Inr False)
        \<and> evaluateCondition h (condition b) answers = Inl e
      \<longrightarrow> getNextQuestionId h q qs answers = Inl e"
    by (simp add: getNextQuestionId_def scanBranches_first_raise)
  show ?thesis
    using first dflt order particular raise by (intro conjI)
qed

theorem getNextQuestionId_precedence_witness:
  "rulesOf (colourForm ! 0) = [] @ redRule # []
   \<and> evaluateCondition asciiHost (condition redRule) [''Q1'' \<mapsto> JString ''Red''] = Inr True
   \<and> getNextQuestionId asciiHost (colourForm ! 0) colourForm [''Q1'' \<mapsto> JString ''Red''] = Inr (Some ''Q3'')
   \<and> evaluateCondition asciiHost (condition redRule) [''Q1'' \<mapsto> JString ''Blue''] = Inr False
   \<and> defaultNextId (colourForm ! 0) = None
   \<and> getNextQuestionId asciiHost (colourForm ! 0) colourForm [''Q1'' \<mapsto> JString ''Blue''] = Inr (Some ''Q2'')
   \<and> rulesOf (cycleForm ! 0) = [] \<and> defaultNextId (cycleForm ! 0) = Some (Some ''B'')
   \<and> getNextQuestionId asciiHost (cycleForm ! 0) cycleForm Map.empty = Inr (Some ''B'')
   \<and> colourForm = [colourForm ! 0] @ (colourForm ! 1) # [colourForm ! 2]
   \<and> distinct (map qid colourForm)
   \<and> rulesOf (colourForm ! 1) = [] \<and> defaultNextId (colourForm ! 1) = None
   \<and> getNextQuestionId asciiHost (colourForm ! 1) colourForm Map.empty = Inr (Some ''Q3'')
   \<and> getNextQuestionId asciiHost (colourForm ! 2) colourForm Map.empty = Inr None
   \<and> evaluateCondition asciiHost (condition redRule) [''Q1'' \<mapsto> shadowing] = Inl TypeError
   \<and> getNextQuestionId asciiHost (colourForm ! 0) colourForm [''Q1'' \<mapsto> shadowing] = Inl TypeError"
  using getNextQuestionId_precedence [of "colourForm ! 0" asciiHost "[''Q1'' \<mapsto> JString ''Red'']" colourForm]
    getNextQuestionId_precedence [of "colourForm ! 0" asciiHost "[''Q1'' \<mapsto> JString ''Blue'']" colourForm]
    getNextQuestionId_precedence [of "cycleForm ! 0" asciiHost Map.empty cycleForm]
    getNextQuestionId_precedence [of "colourForm ! 1" asciiHost Map.empty colourForm]
    getNextQuestionId_precedence [of "colourForm ! 0" asciiHost "[''Q1'' \<mapsto> shadowing]" colourForm]
  by (simp add: ex_defs rulesOf_def evaluateCondition_def getProperty_def getNextQuestionId_def
        linearFallback_def findIndex_def at_def)

text \<open>
  Claim C10, as stated, has \<open>getNextQuestionId\<close> return END, rather than raise,
  whenever the question is absent from the list, none of its rules' conditions
  evaluates to true and default-next is not configured. All three hold below, and the
  resolver raises: the rule's condition does not evaluate to true because its evaluation
  raises.
\<close>

theorem getNextQuestionId_absent_raises_counterexample:
  "qid (mkQuestion ''X'' Short_text (Some [redRule]) None) \<notin> qid ` set colourForm
   \<and> rulesOf (mkQuestion ''X'' Short_text (Some [redRule]) None) = [redRule]
   \<and> evaluateCondition asciiHost (condition redRule) [''Q1'' \<mapsto> shadowing] \<noteq> Inr True
   \<and> defaultNextId (mkQuestion ''X'' Short_text (Some [redRule]) None) = None
   \<and> getNextQuestionId asciiHost (mkQuestion ''X'' Short_text (Some [redRule]) None) colourForm
        [''Q1'' \<mapsto> shadowing] = Inl TypeError"
  by (simp add: ex_defs getNextQuestionId_def rulesOf_def evaluateCondition_def getProperty_def)

text \<open>
  Claim C10, amended. When the current question's id does not occur in the list, every
  one of its rules' conditions evaluates to false (so none raises) and its default-next
  is not configured, \<open>getNextQuestionId\<close> returns END (\<^verbatim>\<open>null\<close>); it neither raises
  nor returns a question id.
\<close>

theorem getNextQuestionId_absent:
  "qid q \<notin> qid ` set qs \<Longrightarrow>
   (\<forall>b \<in> set (rulesOf q). evaluateCondition h (condition b) answers = Inr False) \<Longrightarrow>
   defaultNextId q = None \<Longrightarrow>
   getNextQuestionId h q qs answers = Inr None"
proof -
  assume absent: "qid q \<notin> qid ` set qs"
    and norule: "\<forall>b \<in> set (rulesOf q). evaluateCondition h (condition b) answers = Inr False"
    and nodefault: "defaultNextId q = None"
  have "scanBranches h (rulesOf q) answers = Inr None"
    using norule by (rule scanBranches_all_false)
  moreover have "linearFallback q qs = Inr None"
    using absent by (intro linearFallback_absent) (metis imageI)
  ultimately show ?thesis
    using nodefault by (simp add: getNextQuestionId_def)
qed

theorem getNextQuestionId_absent_witness:
  "qid (mkQuestion ''X'' Short_text (Some [redRule]) None) \<notin> qid ` set colourForm
   \<and> rulesOf (mkQuestion ''X'' Short_text (Some [redRule]) None) = [redRule]
   \<and> evaluateCondition asciiHost (condition redRule) [''Q1'' \<mapsto> JString ''Blue''] = Inr False
   \<and> defaultNextId (mkQuestion ''X'' Short_text (Some [redRule]) None) = None
   \<and> getNextQuestionId asciiHost (mkQuestion ''X'' Short_text (Some [redRule]) None) colourForm
        [''Q1'' \<mapsto> JString ''Blue''] = Inr None"
  using getNextQuestionId_absent
    [of "mkQuestion ''X'' Short_text (Some [redRule]) None" colourForm asciiHost
        "[''Q1'' \<mapsto> JString ''Blue'']"]
  by (simp add: ex_defs rulesOf_def evaluateCondition_def getProperty_def)

section \<open>Properties of the path projector\<close>

lemma find_qid_Some:
  "find (\<lambda>q. qid q = cur) qs = Some question \<Longrightarrow> question \<in> set qs \<and> qid question = cur"
  by (induction qs) (auto split: if_splits)

lemma pathLoop_invariant:
  "set path \<subseteq> set qs \<Longrightarrow> distinct (map qid path) \<Longrightarrow> set (map qid path) \<subseteq> visited \<Longrightarrow>
   length path \<le> iterations \<Longrightarrow>
   pathLoop h qs answers maxIterations path visited currentId iterations = Inr p \<Longrightarrow>
   set p \<subseteq> set qs \<and> distinct (map qid p) \<and> length p \<le> max iterations maxIterations"
proof (induction h qs answers maxIterations path visited currentId iterations rule: pathLoop.induct)
  case (1 h qs answers maxIterations path visited currentId iterations)
  note result = "1.prems"(5)
  show ?case
  proof (cases currentId)
    case None
    then have "p = path"
      using result by (simp add: pathLoop.simps)
    then show ?thesis
      using "1.prems" by simp
  next
    case (Some cur)
    show ?thesis
    proof (cases "cur = [] \<or> \<not> iterations < maxIterations \<or> cur \<in> visited")
      case True
      then have "pathLoop h qs answers maxIterations path visited currentId iterations = Inr path"
        using Some by (auto simp: pathLoop.simps)
      then have "p = path"
        using result by simp
      then show ?thesis
        using "1.prems" by simp
    next
      case False
      then have go: "\<not> (cur = [] \<or> \<not> iterations < maxIterations)" "cur \<notin> visited"
        by auto
      show ?thesis
      proof (cases "find (\<lambda>q. qid q = cur) qs")
        case None
        then have "p = path"
          using Some go result by (simp add: pathLoop.simps)
        then show ?thesis
          using "1.prems" by simp
      next
        case found: (Some question)
        show ?thesis
        proof (cases "getNextQuestionId h question qs answers")
          case (Inl e)
          then have False
            using Some go found result by (simp add: pathLoop.simps)
          then show ?thesis ..
        next
          case (Inr nxt)
          have q: "question \<in> set qs" "qid question = cur"
            using find_qid_Some [OF found] by auto
          have unfold: "pathLoop h qs answers maxIterations (path @ [question]) (insert cur visited)
                nxt (iterations + 1) = Inr p"
            using Some go found Inr result by (simp add: pathLoop.simps)
          have fresh: "cur \<notin> set (map qid path)"
            using go(2) "1.prems"(3) by blast
          have p1: "set (path @ [question]) \<subseteq> set qs"
            using "1.prems"(1) q(1) by simp
          have p2: "distinct (map qid (path @ [question]))"
            using "1.prems"(2) fresh q(2) by simp
          have p3: "set (map qid (path @ [question])) \<subseteq> insert cur visited"
            using "1.prems"(3) q(2) by auto
          have p4: "length (path @ [question]) \<le> iterations + 1"
            using "1.prems"(4) by simp
          have "set p \<subseteq> set qs \<and> distinct (map qid p) \<and> length p \<le> max (iterations + 1) maxIterations"
            using "1.IH" [OF Some go found Inr p1 p2 p3 p4 unfold] .
          moreover have "max (iterations + 1) maxIterations = max iterations maxIterations"
            using go(1) by simp
          ultimately show ?thesis
            by simp
        qed
      qed
    qed
  qed
qed

lemma pathLoop_returns:
  "\<forall>v \<in> ran answers. \<exists>t. String_js v = Inr t \<Longrightarrow>
   \<exists>p. pathLoop h qs answers maxIterations path visited currentId iterations = Inr p"
proof (induction h qs answers maxIterations path visited currentId iterations rule: pathLoop.induct)
  case (1 h qs answers maxIterations path visited currentId iterations)
  note conv = "1.prems"
  show ?case
  proof (cases currentId)
    case None
    then show ?thesis
      by (simp add: pathLoop.simps)
  next
    case (Some cur)
    show ?thesis
    proof (cases "cur = [] \<or> \<not> iterations < maxIterations \<or> cur \<in> visited")
      case True
      then show ?thesis
        using Some by (auto simp: pathLoop.simps)
    next
      case False
      then have go: "\<not> (cur = [] \<or> \<not> iterations < maxIterations)" "cur \<notin> visited"
        by auto
      show ?thesis
      proof (cases "find (\<lambda>q. qid q = cur) qs")
        case None
        then show ?thesis
          using Some go by (simp add: pathLoop.simps)
      next
        case found: (Some question)
        obtain nxt where nxt: "getNextQuestionId h question qs answers = Inr nxt"
          using getNextQuestionId_returns [OF conv] by blast
        have "pathLoop h qs answers maxIterations path visited currentId iterations
            = pathLoop h qs answers maxIterations (path @ [question]) (insert cur visited) nxt
                (iterations + 1)"
          using Some go found nxt by (simp add: pathLoop.simps)
        then show ?thesis
          using "1.IH" [OF Some go found nxt conv] by simp
      qed
    qed
  qed
qed

lemma distinct_ids_length:
  assumes "set p \<subseteq> set qs" and "distinct (map qid p)"
  shows "length p \<le> length qs"
proof -
  have "length p = card (set (map qid p))"
    using assms(2) distinct_card [of "map qid p"] by simp
  also have "\<dots> \<le> card (set (map qid qs))"
    using assms(1) by (intro card_mono) auto
  also have "\<dots> \<le> length qs"
    using card_length [of "map qid qs"] by simp
  finally show ?thesis .
qed

lemma startCursor_returns: "qs \<noteq> [] \<Longrightarrow> \<exists>cur. startCursor qs start = Inr cur"
  by (cases qs) (auto simp: startCursor_def at_def split: option.splits)

lemma getQuestionPath_properties:
  assumes "getQuestionPath h qs answers start = Inr p"
  shows "set p \<subseteq> set qs \<and> distinct (map qid p) \<and> length p \<le> 2 * length qs"
proof (cases "qs = []")
  case True
  then show ?thesis
    using assms by (simp add: getQuestionPath_def)
next
  case False
  then obtain cur where cur: "startCursor qs start = Inr cur"
    using startCursor_returns by blast
  have "pathLoop h qs answers (length qs * 2) [] {} (Some cur) 0 = Inr p"
    using assms False cur by (simp add: getQuestionPath_def)
  then have "set p \<subseteq> set qs \<and> distinct (map qid p) \<and> length p \<le> max 0 (length qs * 2)"
    by (intro pathLoop_invariant [of "[]" qs "{}" 0 h answers "length qs * 2" "Some cur" p]) simp_all
  then show ?thesis
    by simp
qed

lemma getQuestionPath_returns:
  assumes "\<forall>v \<in> ran answers. \<exists>t. String_js v = Inr t"
  shows "\<exists>p. getQuestionPath h qs answers start = Inr p"
proof (cases "qs = []")
  case True
  then show ?thesis
    by (simp add: getQuestionPath_def)
next
  case False
  then obtain cur where cur: "startCursor qs start = Inr cur"
    using startCursor_returns by blast
  then show ?thesis
    using False pathLoop_returns [OF assms] by (simp add: getQuestionPath_def)
qed




text \<open>
  Claim C9. Every entry of a returned path is a question of the input list, the ids of
  the entries are pairwise distinct, and so the path is no longer than the list. A path
  is returned, with these properties, whenever \<^verbatim>\<open>String\<close> raises on no value of the
  answer map.
\<close>

theorem getQuestionPath_distinct_members:
  "(getQuestionPath h qs answers start = Inr p \<longrightarrow>
      set p \<subseteq> set qs \<and> distinct (map qid p) \<and> length p \<le> length qs)
   \<and> ((\<forall>v \<in> ran answers. \<exists>t. String_js v = Inr t) \<longrightarrow>
        (\<exists>r. getQuestionPath h qs answers start = Inr r
            \<and> set r \<subseteq> set qs \<and> distinct (map qid r) \<and> length r \<le> length qs))"
proof -
  have sound: "set r \<subseteq> set qs \<and> distinct (map qid r) \<and> length r \<le> length qs"
    if "getQuestionPath h qs answers start = Inr r" for r
    using getQuestionPath_properties [OF that] distinct_ids_length by blast
  show ?thesis
    using sound getQuestionPath_returns [of answers h qs start] by blast
qed

theorem getQuestionPath_distinct_members_witness:
  "getQuestionPath asciiHost colourForm [''Q1'' \<mapsto> JString ''Red''] None = Inr [colourForm ! 0, colourForm ! 2]
   \<and> ran [''Q1'' \<mapsto> JString ''Red''] = {JString ''Red''}
   \<and> String_js (JString ''Red'') = Inr ''Red''
   \<and> getQuestionPath asciiHost colourForm [''Q1'' \<mapsto> JString ''Blue''] None = Inr colourForm
   \<and> getQuestionPath asciiHost colourForm Map.empty (Some ''Q2'') = Inr [colourForm ! 1, colourForm ! 2]
   \<and> distinct (map qid colourForm)"
  using getQuestionPath_distinct_members
    [of asciiHost colourForm "[''Q1'' \<mapsto> JString ''Red'']" None "[colourForm ! 0, colourForm ! 2]"]
  by (simp add: ex_defs getQuestionPath_def startCursor_def at_def pathLoop.simps
        getNextQuestionId_def rulesOf_def evaluateCondition_def getProperty_def linearFallback_def findIndex_def)

section \<open>Properties of the value query\<close>

lemma getQuestionValues_rating_example:
  "getQuestionValues ((mkQuestion ''r'' Rating None None)\<lparr>minValue := Some 1, maxValue := Some 5\<rparr>)
     = [''1'', ''2'', ''3'', ''4'', ''5'']"
  by code_simp

lemma getQuestionValues_other_types:
  "qtype q \<notin> {Dropdown, Checkboxes, Yes_no, Rating, Opinion_scale} \<Longrightarrow> getQuestionValues q = []"
  by (cases "qtype q") (simp_all add: getQuestionValues_def)

text \<open>
  Claim C7 asks for the range from the configured minimum to the configured maximum.
  The defaults are applied with \<^verbatim>\<open>||\<close>, which also replaces a configured 0: an
  opinion scale configured from 0 to 5 is enumerated from 1 to 5, and the value
  \<^verbatim>\<open>"0"\<close> is missing.
\<close>

theorem getQuestionValues_zero_min:
  "getQuestionValues ((mkQuestion ''s'' Opinion_scale None None)\<lparr>minValue := Some 0, maxValue := Some 5\<rparr>)
     = [''1'', ''2'', ''3'', ''4'', ''5'']"
  by code_simp

section \<open>Properties of rule construction\<close>



end
